theory Spec2Isabelle
  imports Complex_Main "HOL-Library.Signed_Division"
begin

section \<open>Numbers\<close>

text \<open>
  The simulation engine is TypeScript; every quantity is a JavaScript \<open>number\<close>.
  Integer-valued quantities (the generator's seed register, tick counters, vehicle ids) are
  modelled as \<open>int\<close> or \<open>nat\<close>: all integers the generator computes stay below \<open>2^46\<close>, where
  JavaScript arithmetic on them is exact. Energies, powers and probabilities are modelled as
  \<open>real\<close>, that is, with exact arithmetic: rounding, NaN and the infinities are outside the
  model. Diagnostic logging (\<open>_log\<close>, \<open>_logSim\<close>, \<open>console.log\<close>, the \<open>verbose\<close> flag and the
  shared \<open>currentTickRef\<close>) only prints and is left out of the state.
\<close>

section \<open>config.ts\<close>

definition POWER_PER_CHARGEPOINT_KW :: real where
  "POWER_PER_CHARGEPOINT_KW = 11"

definition DAYS_IN_YEAR :: nat where
  "DAYS_IN_YEAR = 365"

definition TICKS_PER_HOUR :: nat where
  "TICKS_PER_HOUR = 4"

definition HOURS_PER_DAY :: nat where
  "HOURS_PER_DAY = 24"

definition TOTAL_TICKS_PER_YEAR :: nat where
  "TOTAL_TICKS_PER_YEAR = DAYS_IN_YEAR * HOURS_PER_DAY * TICKS_PER_HOUR"

definition KWH_PER_100KM :: real where
  "KWH_PER_100KM = 18"

definition ARRIVAL_PROBABILITY_PER_HOUR_T1 :: "real list" where
  "ARRIVAL_PROBABILITY_PER_HOUR_T1 =
     [94 / 10000, 94 / 10000, 94 / 10000, 94 / 10000, 94 / 10000, 94 / 10000,
      94 / 10000, 94 / 10000, 283 / 10000, 283 / 10000, 566 / 10000, 566 / 10000,
      566 / 10000, 755 / 10000, 755 / 10000, 755 / 10000, 1038 / 10000, 1038 / 10000,
      1038 / 10000, 472 / 10000, 472 / 10000, 472 / 10000, 94 / 10000, 94 / 10000]"

record DemandDistributionItem =
  value_km :: real
  probability :: real

definition CHARGING_DEMAND_KM_DISTRIBUTION_T2 :: "DemandDistributionItem list" where
  "CHARGING_DEMAND_KM_DISTRIBUTION_T2 =
     [\<lparr>value_km = 0, probability = 3431 / 10000\<rparr>,
      \<lparr>value_km = 5, probability = 49 / 1000\<rparr>,
      \<lparr>value_km = 10, probability = 98 / 1000\<rparr>,
      \<lparr>value_km = 20, probability = 1176 / 10000\<rparr>,
      \<lparr>value_km = 30, probability = 882 / 10000\<rparr>,
      \<lparr>value_km = 50, probability = 1176 / 10000\<rparr>,
      \<lparr>value_km = 100, probability = 1078 / 10000\<rparr>,
      \<lparr>value_km = 200, probability = 49 / 1000\<rparr>,
      \<lparr>value_km = 300, probability = 294 / 10000\<rparr>]"

definition DEFAULT_SIMULATION_SEED :: int where
  "DEFAULT_SIMULATION_SEED = 12345"

section \<open>random.ts: the seeded generator\<close>

record SeededRandom =
  seed :: int

text \<open>
  The constructor: \<open>this.seed = seed % 2147483647; if (this.seed <= 0) this.seed += 2147483646\<close>.
  JavaScript's \<open>%\<close> truncates towards zero (the result has the sign of the dividend), which on
  \<open>int\<close> is \<open>smod\<close>.
\<close>

definition SeededRandom_new :: "int \<Rightarrow> SeededRandom" where
  "SeededRandom_new s =
     (let r = s smod 2147483647
      in \<lparr>seed = (if r \<le> 0 then r + 2147483646 else r)\<rparr>)"

text \<open>
  \<open>next()\<close>: \<open>this.seed = (this.seed * 16807) % 2147483647; return (this.seed - 1) / 2147483646\<close>.
  The method returns the drawn float together with the updated generator.
\<close>

definition next_rand :: "SeededRandom \<Rightarrow> real \<times> SeededRandom" where
  "next_rand g =
     (let s = (seed g * 16807) smod 2147483647
      in ((of_int s - 1) / 2147483646, \<lparr>seed = s\<rparr>))"

text \<open>\<open>nextInt(min, max)\<close>: \<open>Math.floor(this.next() * (max - min)) + min\<close>.\<close>

definition nextInt :: "int \<Rightarrow> int \<Rightarrow> SeededRandom \<Rightarrow> int \<times> SeededRandom" where
  "nextInt lo hi g =
     (let (r, g') = next_rand g
      in (\<lfloor>r * of_int (hi - lo)\<rfloor> + lo, g'))"

text \<open>The generator after \<open>n\<close> further calls of \<open>next()\<close>.\<close>

fun after_draws :: "nat \<Rightarrow> SeededRandom \<Rightarrow> SeededRandom" where
  "after_draws 0 g = g"
| "after_draws (Suc n) g = after_draws n (snd (next_rand g))"

definition state_in_range :: "SeededRandom \<Rightarrow> bool" where
  "state_in_range g = (1 \<le> seed g \<and> seed g \<le> 2147483646)"

section \<open>ev.ts: the vehicle\<close>

record ElectricVehicle =
  id_ev :: nat
  energyNeededKwh :: real
  energyReceivedKwh :: real

definition ElectricVehicle_new :: "nat \<Rightarrow> real \<Rightarrow> ElectricVehicle" where
  "ElectricVehicle_new i needed =
     \<lparr>id_ev = i, energyNeededKwh = needed, energyReceivedKwh = 0\<rparr>"

text \<open>\<open>charge(energyKwh)\<close> returns the energy actually received and the updated vehicle.\<close>

definition charge :: "real \<Rightarrow> ElectricVehicle \<Rightarrow> real \<times> ElectricVehicle" where
  "charge energyKwh ev =
     (let energyCanReceive = energyNeededKwh ev - energyReceivedKwh ev;
          actualEnergyReceived = min energyKwh energyCanReceive
      in (actualEnergyReceived,
          ev\<lparr>energyReceivedKwh := energyReceivedKwh ev + actualEnergyReceived\<rparr>))"

definition isFullyCharged :: "ElectricVehicle \<Rightarrow> bool" where
  "isFullyCharged ev = (energyReceivedKwh ev \<ge> energyNeededKwh ev - 1 / 10000)"

definition vehicle_inv :: "ElectricVehicle \<Rightarrow> bool" where
  "vehicle_inv ev = (0 \<le> energyReceivedKwh ev \<and> energyReceivedKwh ev \<le> energyNeededKwh ev)"

section \<open>distributions.ts: the weighted choice\<close>

text \<open>The only exception of the engine: \<open>throw new Error('Distribution cannot be empty.')\<close>.\<close>

datatype error = InvalidArgument

text \<open>
  The \<open>for (const item of distribution)\<close> loop, from a running sum \<open>cumulativeProbability\<close>:
  \<open>Some v\<close> when the loop returns \<open>v\<close>, \<open>None\<close> when it falls through.
\<close>

fun walk_distribution :: "real \<Rightarrow> real \<Rightarrow> DemandDistributionItem list \<Rightarrow> real option" where
  "walk_distribution rand cumulativeProbability [] = None"
| "walk_distribution rand cumulativeProbability (item # rest) =
     (let cumulativeProbability' = cumulativeProbability + probability item
      in if rand < cumulativeProbability' then Some (value_km item)
         else walk_distribution rand cumulativeProbability' rest)"

text \<open>
  The argument has type \<open>DemandDistributionItem[]\<close>, so the \<open>!distribution\<close> test for null is
  the emptiness test of a list here.
\<close>

definition getWeightedRandomChoice ::
    "DemandDistributionItem list \<Rightarrow> SeededRandom \<Rightarrow> error + (real \<times> SeededRandom)" where
  "getWeightedRandomChoice distribution randomGenerator =
     (if length distribution = 0 then Inl InvalidArgument
      else
        let (rand, g') = next_rand randomGenerator
        in (case walk_distribution rand 0 distribution of
              Some v \<Rightarrow> Inr (v, g')
            | None \<Rightarrow> Inr (value_km (distribution ! (length distribution - 1)), g')))"

text \<open>
  The sampler as the specification words it: the value of the first entry whose running
  cumulative probability sum strictly exceeds \<open>r\<close>, or the value of the last entry if there is
  no such entry.
\<close>

definition running_sum :: "DemandDistributionItem list \<Rightarrow> nat \<Rightarrow> real" where
  "running_sum distribution i = sum_list (map probability (take (Suc i) distribution))"

definition spec_weighted_choice :: "DemandDistributionItem list \<Rightarrow> real \<Rightarrow> real" where
  "spec_weighted_choice distribution r =
     (case List.find (\<lambda>i. r < running_sum distribution i) [0..<length distribution] of
        Some i \<Rightarrow> value_km (distribution ! i)
      | None \<Rightarrow> value_km (last distribution))"

section \<open>chargepoint.ts\<close>

text \<open>
  Vehicles are objects: a chargepoint holds a reference to its vehicle and charges it in place,
  and the vehicle object outlives its release. The store of vehicle objects is a list, a
  reference is a position in it, and a new object is appended at the end.
\<close>

type_synonym ev_ref = nat
type_synonym ev_store = "ElectricVehicle list"

record Chargepoint =
  id_cp :: nat
  powerKw :: real
  currentEV :: "ev_ref option"

definition Chargepoint_new :: "nat \<Rightarrow> Chargepoint" where
  "Chargepoint_new i = \<lparr>id_cp = i, powerKw = POWER_PER_CHARGEPOINT_KW, currentEV = None\<rparr>"

definition isAvailable :: "Chargepoint \<Rightarrow> bool" where
  "isAvailable cp = (currentEV cp = None)"

text \<open>
  \<open>assignEV(ev)\<close>: the parameter has type \<open>ElectricVehicle\<close>, a reference that is not null, so of
  \<open>!ev || !ev.energyNeededKwh || ev.energyNeededKwh <= 0\<close> the first test is false;
  \<open>!ev.energyNeededKwh\<close> holds when the need is \<open>0\<close>. The method writes to no vehicle.
\<close>

definition assignEV :: "ev_store \<Rightarrow> ev_ref \<Rightarrow> Chargepoint \<Rightarrow> bool \<times> Chargepoint" where
  "assignEV h ev cp =
     (if \<not> isAvailable cp then (False, cp)
      else if energyNeededKwh (h ! ev) = 0 \<or> energyNeededKwh (h ! ev) \<le> 0 then (False, cp)
      else (True, cp\<lparr>currentEV := Some ev\<rparr>))"

definition releaseEV :: "Chargepoint \<Rightarrow> Chargepoint" where
  "releaseEV cp = (if currentEV cp \<noteq> None then cp\<lparr>currentEV := None\<rparr> else cp)"

text \<open>
  \<open>processChargingTick()\<close> returns the energy delivered, the store with the charged vehicle
  and the chargepoint, which has released the vehicle if it is fully charged.
\<close>

definition processChargingTick :: "ev_store \<Rightarrow> Chargepoint \<Rightarrow> real \<times> ev_store \<times> Chargepoint" where
  "processChargingTick h cp =
     (case currentEV cp of
        None \<Rightarrow> (0, h, cp)
      | Some a \<Rightarrow>
          let energyDeliverableThisTick = powerKw cp * (1 / real TICKS_PER_HOUR);
              (energyDelivered, ev') = charge energyDeliverableThisTick (h ! a);
              h' = h[a := ev']
          in (energyDelivered, h', if isFullyCharged (h' ! a) then releaseEV cp else cp))"

section \<open>station.ts\<close>

record ChargingStation =
  chargepoints :: "Chargepoint list"

definition ChargingStation_new :: "nat \<Rightarrow> ChargingStation" where
  "ChargingStation_new numChargepoints =
     \<lparr>chargepoints = map Chargepoint_new [0..<numChargepoints]\<rparr>"

text \<open>
  \<open>this.chargepoints.find((cp) => cp.isAvailable()) || null\<close>: \<open>None\<close> is null; an object is
  never falsy, so \<open>||\<close> only turns the \<open>undefined\<close> of an unsuccessful \<open>find\<close> into null.
\<close>

definition findAvailableChargepoint :: "ChargingStation \<Rightarrow> Chargepoint option" where
  "findAvailableChargepoint st = List.find isAvailable (chargepoints st)"

definition getTotalChargepoints :: "ChargingStation \<Rightarrow> nat" where
  "getTotalChargepoints st = length (chargepoints st)"

section \<open>statistics.ts\<close>

record SimulationStatistics =
  totalEnergyConsumedKwh :: real
  actualMaxPowerDemandKw :: real

definition SimulationStatistics_new :: SimulationStatistics where
  "SimulationStatistics_new = \<lparr>totalEnergyConsumedKwh = 0, actualMaxPowerDemandKw = 0\<rparr>"

definition recordTickData :: "real \<Rightarrow> real \<Rightarrow> SimulationStatistics \<Rightarrow> SimulationStatistics" where
  "recordTickData energyThisTickKwh powerDemandThisTickKw st =
     (let st1 = st\<lparr>totalEnergyConsumedKwh := totalEnergyConsumedKwh st + energyThisTickKwh\<rparr>
      in if powerDemandThisTickKw > actualMaxPowerDemandKw st1
         then st1\<lparr>actualMaxPowerDemandKw := powerDemandThisTickKw\<rparr>
         else st1)"

section \<open>index.ts: the engine\<close>

record SimulationOptions =
  seed_option :: "int option"
  verbose_option :: "bool option"
  maxTicks_option :: "nat option"

text \<open>
  The engine. \<open>vehicles\<close> is the store of every vehicle object the run has created, in order
  of creation.
\<close>

record EVChargingSimulation =
  numChargepoints :: nat
  station :: ChargingStation
  randomGenerator :: SeededRandom
  stats :: SimulationStatistics
  maxTicksToSimulate :: nat
  nextEvId :: nat
  vehicles :: ev_store

definition EVChargingSimulation_new :: "nat \<Rightarrow> SimulationOptions \<Rightarrow> EVChargingSimulation" where
  "EVChargingSimulation_new n options =
     \<lparr>numChargepoints = n,
      station = ChargingStation_new n,
      randomGenerator =
        SeededRandom_new (case seed_option options of None \<Rightarrow> DEFAULT_SIMULATION_SEED | Some s \<Rightarrow> s),
      stats = SimulationStatistics_new,
      maxTicksToSimulate =
        (case maxTicks_option options of None \<Rightarrow> TOTAL_TICKS_PER_YEAR | Some m \<Rightarrow> m),
      nextEvId = 1,
      vehicles = []\<rparr>"

text \<open>
  What the loop over the chargepoints of one tick reads and writes besides the chargepoint
  itself: the generator, the id counter, the vehicle objects and the two running totals of
  the tick.
\<close>

record TickState =
  rng :: SeededRandom
  evId :: nat
  store :: ev_store
  totalEnergyDeliveredThisTick :: real
  currentPowerDemandThisTick :: real

text \<open>The branch of an idle chargepoint (lines 78 to 94 of \<open>run\<close>).\<close>

definition arrival :: "nat \<Rightarrow> Chargepoint \<Rightarrow> TickState \<Rightarrow> error + (Chargepoint \<times> TickState)" where
  "arrival currentHour chargepoint ts =
     (let hourlyArrivalProb = ARRIVAL_PROBABILITY_PER_HOUR_T1 ! currentHour;
          tickArrivalProb = hourlyArrivalProb / real TICKS_PER_HOUR;
          (r, g1) = next_rand (rng ts)
      in if r < tickArrivalProb then
           (case getWeightedRandomChoice CHARGING_DEMAND_KM_DISTRIBUTION_T2 g1 of
              Inl e \<Rightarrow> Inl e
            | Inr (demandKm, g2) \<Rightarrow>
                let needed = (demandKm / 100) * KWH_PER_100KM
                in if needed > 0 then
                     let newEV = length (store ts);
                         h1 = store ts @ [ElectricVehicle_new (evId ts) needed];
                         ts1 = ts\<lparr>rng := g2, evId := evId ts + 1, store := h1\<rparr>;
                         (assigned, cp1) = assignEV h1 newEV chargepoint
                     in if assigned then
                          let (energyDelivered, h2, cp2) = processChargingTick h1 cp1
                          in Inr (cp2, ts1\<lparr>store := h2,
                                   totalEnergyDeliveredThisTick :=
                                     totalEnergyDeliveredThisTick ts1 + energyDelivered\<rparr>)
                        else Inr (cp1, ts1)
                   else Inr (chargepoint, ts\<lparr>rng := g2\<rparr>))
         else Inr (chargepoint, ts\<lparr>rng := g1\<rparr>))"

text \<open>The body of \<open>for (const chargepoint of this.station.chargepoints)\<close>.\<close>

definition visit_chargepoint ::
    "nat \<Rightarrow> Chargepoint \<Rightarrow> TickState \<Rightarrow> error + (Chargepoint \<times> TickState)" where
  "visit_chargepoint currentHour chargepoint ts =
     (case (if isAvailable chargepoint then arrival currentHour chargepoint ts
            else
              let (energyDelivered, h', cp') = processChargingTick (store ts) chargepoint
              in Inr (cp', ts\<lparr>store := h',
                       totalEnergyDeliveredThisTick :=
                         totalEnergyDeliveredThisTick ts + energyDelivered\<rparr>)) of
        Inl e \<Rightarrow> Inl e
      | Inr (cp', ts') \<Rightarrow>
          Inr (cp',
               if \<not> isAvailable cp'
               then ts'\<lparr>currentPowerDemandThisTick := currentPowerDemandThisTick ts' + powerKw cp'\<rparr>
               else ts'))"

text \<open>The loop over the chargepoints, in station order; an exception ends it.\<close>

fun for_chargepoints ::
    "nat \<Rightarrow> Chargepoint list \<Rightarrow> TickState \<Rightarrow> error + (Chargepoint list \<times> TickState)" where
  "for_chargepoints currentHour [] ts = Inr ([], ts)"
| "for_chargepoints currentHour (cp # cps) ts =
     (case visit_chargepoint currentHour cp ts of
        Inl e \<Rightarrow> Inl e
      | Inr (cp', ts') \<Rightarrow>
          (case for_chargepoints currentHour cps ts' of
             Inl e \<Rightarrow> Inl e
           | Inr (cps', ts'') \<Rightarrow> Inr (cp' # cps', ts'')))"

text \<open>One iteration of the tick loop of \<open>run\<close>.\<close>

definition tick_body :: "nat \<Rightarrow> EVChargingSimulation \<Rightarrow> error + EVChargingSimulation" where
  "tick_body tick sim =
     (let currentHour = (tick mod (HOURS_PER_DAY * TICKS_PER_HOUR)) div TICKS_PER_HOUR;
          ts0 = \<lparr>rng = randomGenerator sim, evId = nextEvId sim, store = vehicles sim,
                 totalEnergyDeliveredThisTick = 0, currentPowerDemandThisTick = 0\<rparr>
      in case for_chargepoints currentHour (chargepoints (station sim)) ts0 of
           Inl e \<Rightarrow> Inl e
         | Inr (cps', ts) \<Rightarrow>
             Inr (sim\<lparr>station := \<lparr>chargepoints = cps'\<rparr>,
                      randomGenerator := rng ts,
                      nextEvId := evId ts,
                      vehicles := store ts,
                      stats := recordTickData (totalEnergyDeliveredThisTick ts)
                                 (currentPowerDemandThisTick ts) (stats sim)\<rparr>))"

text \<open>
  \<open>for (let tick = 0; tick < this.maxTicksToSimulate; tick++)\<close>, entered at \<open>tick\<close>. The bound
  is a parameter: the loop never writes \<open>maxTicksToSimulate\<close>.
\<close>

function run_loop :: "nat \<Rightarrow> nat \<Rightarrow> EVChargingSimulation \<Rightarrow> error + EVChargingSimulation" where
  "run_loop maxTicks tick sim =
     (if tick < maxTicks then
        (case tick_body tick sim of
           Inl e \<Rightarrow> Inl e
         | Inr sim' \<Rightarrow> run_loop maxTicks (Suc tick) sim')
      else Inr sim)"
  by pat_completeness auto
termination
  by (relation "measure (\<lambda>(maxTicks, tick, sim). maxTicks - tick)") auto

definition run :: "EVChargingSimulation \<Rightarrow> error + EVChargingSimulation" where
  "run sim = run_loop (maxTicksToSimulate sim) 0 sim"

text \<open>The state of a run after its first \<open>k\<close> ticks (ticks \<open>0\<close> to \<open>k - 1\<close>).\<close>

definition after_ticks :: "nat \<Rightarrow> EVChargingSimulation \<Rightarrow> error + EVChargingSimulation" where
  "after_ticks k sim = run_loop k 0 sim"

text \<open>The sum of the energy received by every vehicle object of the store.\<close>

definition energy_received_by_all :: "ev_store \<Rightarrow> real" where
  "energy_received_by_all h = sum_list (map energyReceivedKwh h)"

section \<open>Invariants of a run\<close>

text \<open>Every vehicle object of the store has received between nothing and its need.\<close>

definition store_inv :: "ev_store \<Rightarrow> bool" where
  "store_inv h = list_all vehicle_inv h"

text \<open>A chargepoint has the rated power, and a vehicle it holds is an object of the store.\<close>

definition chargepoint_inv :: "ev_store \<Rightarrow> Chargepoint \<Rightarrow> bool" where
  "chargepoint_inv h cp =
     (powerKw cp = POWER_PER_CHARGEPOINT_KW
      \<and> (case currentEV cp of None \<Rightarrow> True | Some a \<Rightarrow> a < length h))"

definition sim_inv :: "EVChargingSimulation \<Rightarrow> bool" where
  "sim_inv sim =
     (store_inv (vehicles sim)
      \<and> list_all (chargepoint_inv (vehicles sim)) (chargepoints (station sim))
      \<and> length (chargepoints (station sim)) = numChargepoints sim
      \<and> nextEvId sim = Suc (length (vehicles sim))
      \<and> totalEnergyConsumedKwh (stats sim) = energy_received_by_all (vehicles sim)
      \<and> actualMaxPowerDemandKw (stats sim)
          \<le> real (numChargepoints sim) * POWER_PER_CHARGEPOINT_KW)"

text \<open>
  What one or more chargepoint visits do to the state of a tick: vehicle objects are only
  added, the id counter stays one ahead of their number, the running totals only grow, and
  the energy delivered in the tick is the energy the vehicles received.
\<close>

definition tick_progress :: "TickState \<Rightarrow> TickState \<Rightarrow> bool" where
  "tick_progress ts ts' =
     (store_inv (store ts')
      \<and> length (store ts) \<le> length (store ts')
      \<and> evId ts' = Suc (length (store ts'))
      \<and> totalEnergyDeliveredThisTick ts \<le> totalEnergyDeliveredThisTick ts'
      \<and> energy_received_by_all (store ts') - totalEnergyDeliveredThisTick ts'
          = energy_received_by_all (store ts) - totalEnergyDeliveredThisTick ts
      \<and> currentPowerDemandThisTick ts \<le> currentPowerDemandThisTick ts')"

section \<open>The generator\<close>

lemma coprime_multiplier: "coprime (16807::int) 2147483647"
proof (rule coprimeI)
  fix c :: int
  assume a: "c dvd 16807" and b: "c dvd 2147483647"
  have "c dvd 16807 * 1407677000 + 2147483647 * (- 11017)"
    by (intro dvd_add dvd_mult2 a b)
  then show "is_unit c" by simp
qed

lemma lcg_step_in_range:
  assumes "1 \<le> (s::int)" "s \<le> 2147483646"
  shows "1 \<le> (s * 16807) mod 2147483647 \<and> (s * 16807) mod 2147483647 \<le> 2147483646"
proof -
  have nz: "(s * 16807) mod 2147483647 \<noteq> 0"
  proof
    assume "(s * 16807) mod 2147483647 = 0"
    then have "2147483647 dvd s * 16807" by presburger
    then have "2147483647 dvd s"
      using coprime_multiplier
      by (metis coprime_commute coprime_dvd_mult_left_iff)
    then show False using assms by (auto dest: zdvd_imp_le)
  qed
  have "0 \<le> (s * 16807) mod 2147483647" "(s * 16807) mod 2147483647 < 2147483647"
    by simp_all
  with nz show ?thesis by linarith
qed

lemma smod_nonneg: "0 \<le> k \<Longrightarrow> 0 < l \<Longrightarrow> (k::int) smod l = k mod l"
  by (simp add: signed_modulo_int_def sgn_if)

lemma smod_bounds: "- 2147483646 \<le> (s::int) smod 2147483647 \<and> s smod 2147483647 \<le> 2147483646"
proof -
  have a: "0 \<le> \<bar>s\<bar> mod 2147483647" and b: "\<bar>s\<bar> mod 2147483647 < 2147483647" by simp_all
  have "s smod 2147483647 = \<bar>s\<bar> mod 2147483647 \<or> s smod 2147483647 = - (\<bar>s\<bar> mod 2147483647)
        \<or> s smod 2147483647 = 0"
    by (simp add: signed_modulo_int_def sgn_if)
  with a b show ?thesis by linarith
qed

lemma SeededRandom_new_in_range:
  assumes "s smod 2147483647 \<noteq> - 2147483646"
  shows "state_in_range (SeededRandom_new s)"
  using assms smod_bounds [of s]
  by (simp add: state_in_range_def SeededRandom_new_def Let_def)

lemma next_rand_seed:
  "state_in_range g \<Longrightarrow> seed (snd (next_rand g)) = (seed g * 16807) mod 2147483647"
  by (simp add: next_rand_def Let_def state_in_range_def smod_nonneg)

lemma next_rand_value: "fst (next_rand g) = (of_int (seed (snd (next_rand g))) - 1) / 2147483646"
  by (simp add: next_rand_def Let_def)

lemma next_rand_in_range:
  assumes "state_in_range g"
  shows "state_in_range (snd (next_rand g))"
proof -
  have "1 \<le> seed g" "seed g \<le> 2147483646" using assms by (simp_all add: state_in_range_def)
  then have "1 \<le> (seed g * 16807) mod 2147483647 \<and> (seed g * 16807) mod 2147483647 \<le> 2147483646"
    by (rule lcg_step_in_range)
  then show ?thesis
    by (simp add: state_in_range_def next_rand_seed [OF assms])
qed

lemma after_draws_in_range: "state_in_range g \<Longrightarrow> state_in_range (after_draws n g)"
  by (induction n arbitrary: g) (simp_all add: next_rand_in_range)

lemma next_rand_unit_interval:
  assumes "state_in_range g"
  shows "0 \<le> fst (next_rand g) \<and> fst (next_rand g) < 1"
proof -
  have "state_in_range (snd (next_rand g))" using assms by (rule next_rand_in_range)
  then have "1 \<le> seed (snd (next_rand g))" "seed (snd (next_rand g)) \<le> 2147483646"
    by (simp_all add: state_in_range_def)
  then have "(0::real) \<le> of_int (seed (snd (next_rand g))) - 1"
     "of_int (seed (snd (next_rand g))) - 1 < (2147483646::real)"
    by linarith+
  then show ?thesis
    by (simp add: next_rand_value [of g])
qed

lemma nextInt_bounds:
  assumes "state_in_range g" "lo < hi"
  shows "lo \<le> fst (nextInt lo hi g) \<and> fst (nextInt lo hi g) < hi"
proof -
  define r where "r = fst (next_rand g)"
  have r: "0 \<le> r" "r < 1" using next_rand_unit_interval [OF assms(1)] by (simp_all add: r_def)
  have pos: "(0::real) < of_int (hi - lo)" using assms(2) by simp
  have "0 \<le> r * of_int (hi - lo)" using r pos by simp
  then have lower: "0 \<le> \<lfloor>r * of_int (hi - lo)\<rfloor>" by simp
  have "r * of_int (hi - lo) < of_int (hi - lo)" using r pos by simp
  then have upper: "\<lfloor>r * of_int (hi - lo)\<rfloor> < hi - lo" by (simp add: floor_less_iff)
  have "fst (nextInt lo hi g) = \<lfloor>r * of_int (hi - lo)\<rfloor> + lo"
    by (simp add: nextInt_def r_def split: prod.splits)
  with lower upper show ?thesis by linarith
qed

lemma draws_in_unit_interval:
  assumes "s smod 2147483647 \<noteq> - 2147483646"
  shows "0 \<le> fst (next_rand (after_draws n (SeededRandom_new s)))
     \<and> fst (next_rand (after_draws n (SeededRandom_new s))) < 1"
  by (intro next_rand_unit_interval after_draws_in_range SeededRandom_new_in_range assms)

text \<open>
  Claim C2, as stated, fails: the first draw of a generator seeded with \<open>1\<close> is not
  \<open>16807 / 2147483646\<close>; \<open>16807\<close> is the new state, and \<open>next()\<close> subtracts one from it.
\<close>

theorem first_draw_seed_1_is_not_16807:
  "fst (next_rand (SeededRandom_new 1)) \<noteq> 16807 / 2147483646"
  by (simp add: next_rand_def SeededRandom_new_def signed_modulo_int_def)

text \<open>
  Claim C2, amended: for a generator constructed with seed \<open>1\<close>, the first call of \<open>next()\<close>
  sets the state to \<open>16807\<close> and returns exactly \<open>16806 / 2147483646\<close>.
\<close>

theorem first_draw_seed_1:
  "fst (next_rand (SeededRandom_new 1)) = 16806 / 2147483646
   \<and> seed (snd (next_rand (SeededRandom_new 1))) = 16807"
  by (simp add: next_rand_def SeededRandom_new_def signed_modulo_int_def)

text \<open>
  Claim C3 says that the constructor leaves the state in \<open>[1, 2147483646]\<close> for every integer
  seed, so that \<open>next()\<close> is in \<open>[0, 1)\<close> and \<open>nextInt(min, max)\<close> in \<open>[min, max)\<close>. The
  constructor misses the seed \<open>-2147483646\<close>: the remainder is the seed itself and adding
  \<open>2147483646\<close> gives the state \<open>0\<close>, which \<open>next()\<close> never leaves; every draw is
  \<open>-1 / 2147483646\<close>, and \<open>nextInt(5, 10)\<close> is \<open>4\<close>.
\<close>

theorem seed_normalisation_misses_a_seed:
  "seed (SeededRandom_new (- 2147483646)) = 0
   \<and> fst (next_rand (SeededRandom_new (- 2147483646))) = - 1 / 2147483646
   \<and> seed (snd (next_rand (SeededRandom_new (- 2147483646)))) = 0
   \<and> fst (nextInt 5 10 (SeededRandom_new (- 2147483646))) = 4"
  by (simp add: nextInt_def next_rand_def SeededRandom_new_def signed_modulo_int_def)

section \<open>The weighted choice\<close>

lemma find_map_index: "List.find P (map f xs) = map_option f (List.find (\<lambda>x. P (f x)) xs)"
  by (induction xs) simp_all

lemma walk_distribution_find:
  "walk_distribution r c xs =
     map_option (\<lambda>i. value_km (xs ! i))
       (List.find (\<lambda>i. r < c + sum_list (map probability (take (Suc i) xs))) [0..<length xs])"
proof (induction xs arbitrary: c)
  case Nil
  show ?case by simp
next
  case (Cons x xs)
  have "[0..<Suc (length xs)] = 0 # [Suc 0..<Suc (length xs)]"
    by (rule upt_conv_Cons) simp
  then have upt: "[0..<Suc (length xs)] = 0 # map Suc [0..<length xs]"
    by (simp only: map_Suc_upt)
  show ?case
  proof (cases "r < c + probability x")
    case True
    then show ?thesis by (simp add: upt del: upt_Suc)
  next
    case False
    then show ?thesis
      by (simp add: upt Cons.IH find_map_index option.map_comp comp_def add.assoc del: upt_Suc)
  qed
qed

lemma walk_distribution_spec:
  "xs \<noteq> [] \<Longrightarrow>
   (case walk_distribution r 0 xs of Some v \<Rightarrow> v | None \<Rightarrow> value_km (xs ! (length xs - 1)))
     = spec_weighted_choice xs r"
  by (simp add: walk_distribution_find spec_weighted_choice_def running_sum_def last_conv_nth
      split: option.splits)

text \<open>
  Claim C4: \<open>getWeightedRandomChoice\<close> fails, with the error the specification calls
  InvalidArgument, exactly when the distribution is empty. On a distribution that is not empty
  it draws one float \<open>r\<close> (the generator returned is the one after a single \<open>next()\<close>) and
  returns the value of the first entry whose running cumulative probability sum strictly
  exceeds \<open>r\<close>, or the value of the last entry when no running sum exceeds \<open>r\<close>.
\<close>

theorem weighted_choice:
  "(getWeightedRandomChoice distribution g = Inl InvalidArgument \<longleftrightarrow> distribution = [])
   \<and> ((\<exists>e. getWeightedRandomChoice distribution g = Inl e) \<longleftrightarrow> distribution = [])
   \<and> (distribution \<noteq> [] \<longrightarrow>
        getWeightedRandomChoice distribution g =
          Inr (spec_weighted_choice distribution (fst (next_rand g)), snd (next_rand g)))"
proof (cases "distribution = []")
  case True
  then show ?thesis by (simp add: getWeightedRandomChoice_def)
next
  case False
  have "getWeightedRandomChoice distribution g =
          Inr (spec_weighted_choice distribution (fst (next_rand g)), snd (next_rand g))"
    using False walk_distribution_spec [OF False, of "fst (next_rand g)"]
    by (cases "walk_distribution (fst (next_rand g)) 0 distribution")
       (simp_all add: getWeightedRandomChoice_def case_prod_beta)
  with False show ?thesis by simp
qed

text \<open>
  Witness for C4: the distribution \<open>[{0, 0.5}, {10, 0.5}]\<close> with a generator seeded with \<open>1\<close>,
  whose first draw is below \<open>0.5\<close>.
\<close>

theorem weighted_choice_witness:
  "[\<lparr>value_km = 0, probability = 1/2\<rparr>, \<lparr>value_km = 10, probability = 1/2\<rparr>] \<noteq> []
   \<and> getWeightedRandomChoice [\<lparr>value_km = 0, probability = 1/2\<rparr>, \<lparr>value_km = 10, probability = 1/2\<rparr>]
       (SeededRandom_new 1) = Inr (0, \<lparr>seed = 16807\<rparr>)"
  using weighted_choice [of "[\<lparr>value_km = 0, probability = 1/2\<rparr>, \<lparr>value_km = 10, probability = 1/2\<rparr>]"
      "SeededRandom_new 1"]
  by (simp add: spec_weighted_choice_def running_sum_def next_rand_def SeededRandom_new_def
      signed_modulo_int_def)

section \<open>The vehicle\<close>



section \<open>The chargepoint and the station\<close>

text \<open>
  Claim C7: on an occupied chargepoint \<open>assignEV\<close> returns false for every vehicle, and the
  chargepoint is unchanged: it holds the vehicle it held. \<open>assignEV\<close> writes to no vehicle
  object, so the vehicle held is not modified.
\<close>

theorem assignEV_occupied:
  assumes "\<not> isAvailable cp"
  shows "assignEV h ev cp = (False, cp)"
  using assms by (simp add: assignEV_def)

text \<open>Witness for C7: a chargepoint holding vehicle object 0 is offered vehicle object 1.\<close>

theorem assignEV_occupied_witness:
  "\<not> isAvailable \<lparr>id_cp = 0, powerKw = 11, currentEV = Some 0\<rparr>
   \<and> assignEV [ElectricVehicle_new 1 9, ElectricVehicle_new 2 18] 1
        \<lparr>id_cp = 0, powerKw = 11, currentEV = Some 0\<rparr>
      = (False, \<lparr>id_cp = 0, powerKw = 11, currentEV = Some 0\<rparr>)"
proof -
  have occ: "\<not> isAvailable \<lparr>id_cp = 0, powerKw = 11, currentEV = Some 0\<rparr>"
    by (simp add: isAvailable_def)
  show ?thesis
    using assignEV_occupied [OF occ, of "[ElectricVehicle_new 1 9, ElectricVehicle_new 2 18]" 1] occ
    by simp
qed

text \<open>
  Claim C8: \<open>findAvailableChargepoint\<close> returns the idle chargepoint of lowest index when some
  chargepoint is idle, and null when every chargepoint is occupied; with chargepoints 0 and 1
  both idle it returns chargepoint 0.
\<close>

theorem first_fit:
  "((\<exists>cp \<in> set (chargepoints st). isAvailable cp) \<longrightarrow>
      (\<exists>i < length (chargepoints st).
          findAvailableChargepoint st = Some (chargepoints st ! i)
          \<and> isAvailable (chargepoints st ! i)
          \<and> (\<forall>j < i. \<not> isAvailable (chargepoints st ! j))))
   \<and> ((\<forall>cp \<in> set (chargepoints st). \<not> isAvailable cp) \<longrightarrow> findAvailableChargepoint st = None)
   \<and> (2 \<le> length (chargepoints st) \<and> isAvailable (chargepoints st ! 0)
         \<and> isAvailable (chargepoints st ! 1) \<longrightarrow>
       findAvailableChargepoint st = Some (chargepoints st ! 0))"
proof (intro conjI impI)
  assume "\<exists>cp \<in> set (chargepoints st). isAvailable cp"
  then have "List.find isAvailable (chargepoints st) \<noteq> None"
    by (auto simp: find_None_iff)
  then obtain cp where "List.find isAvailable (chargepoints st) = Some cp" by blast
  then show "\<exists>i < length (chargepoints st).
          findAvailableChargepoint st = Some (chargepoints st ! i)
          \<and> isAvailable (chargepoints st ! i)
          \<and> (\<forall>j < i. \<not> isAvailable (chargepoints st ! j))"
    by (auto simp: findAvailableChargepoint_def find_Some_iff)
next
  assume "\<forall>cp \<in> set (chargepoints st). \<not> isAvailable cp"
  then show "findAvailableChargepoint st = None"
    by (simp add: findAvailableChargepoint_def find_None_iff)
next
  assume "2 \<le> length (chargepoints st) \<and> isAvailable (chargepoints st ! 0)
         \<and> isAvailable (chargepoints st ! 1)"
  then show "findAvailableChargepoint st = Some (chargepoints st ! 0)"
    by (cases "chargepoints st") (simp_all add: findAvailableChargepoint_def)
qed

text \<open>
  Witness for C8: a new station of two chargepoints, both idle, and a station whose only
  chargepoint is occupied.
\<close>

theorem first_fit_witness:
  "isAvailable (chargepoints (ChargingStation_new 2) ! 0)
   \<and> isAvailable (chargepoints (ChargingStation_new 2) ! 1)
   \<and> findAvailableChargepoint (ChargingStation_new 2) = Some (Chargepoint_new 0)
   \<and> \<not> isAvailable \<lparr>id_cp = 0, powerKw = 11, currentEV = Some 0\<rparr>
   \<and> findAvailableChargepoint \<lparr>chargepoints = [\<lparr>id_cp = 0, powerKw = 11, currentEV = Some 0\<rparr>]\<rparr> = None"
  using first_fit [of "ChargingStation_new 2"]
    first_fit [of "\<lparr>chargepoints = [\<lparr>id_cp = 0, powerKw = 11, currentEV = Some 0\<rparr>]\<rparr>"]
  by (simp add: ChargingStation_new_def Chargepoint_new_def isAvailable_def upt_rec)

text \<open>
  Claim C6: when \<open>processChargingTick\<close> on an occupied chargepoint leaves the held vehicle
  fully charged, the chargepoint is idle when the call returns. Wherever the chargepoint
  stands in a station, \<open>findAvailableChargepoint\<close> then finds an idle chargepoint, and it is
  this one unless a chargepoint of lower index is idle.
\<close>

theorem release_on_completion:
  assumes "currentEV cp = Some a"
    and "processChargingTick h cp = (e, h', cp')"
    and "isFullyCharged (h' ! a)"
  shows "isAvailable cp'
     \<and> (\<forall>cps i. i < length cps \<longrightarrow>
            findAvailableChargepoint \<lparr>chargepoints = cps[i := cp']\<rparr> \<noteq> None)
     \<and> (\<forall>cps i. i < length cps \<and> (\<forall>j < i. \<not> isAvailable (cps ! j)) \<longrightarrow>
            findAvailableChargepoint \<lparr>chargepoints = cps[i := cp']\<rparr> = Some cp')"
proof -
  have "h' = h[a := snd (charge (powerKw cp * (1 / real TICKS_PER_HOUR)) (h ! a))]"
    using assms(1,2) by (simp add: processChargingTick_def case_prod_beta Let_def)
  then have "cp' = releaseEV cp"
    using assms by (simp add: processChargingTick_def case_prod_beta Let_def)
  then have idle: "isAvailable cp'"
    using assms(1) by (simp add: releaseEV_def isAvailable_def)
  have some: "findAvailableChargepoint \<lparr>chargepoints = cps[i := cp']\<rparr> \<noteq> None"
    if "i < length cps" for cps i
  proof -
    have "cp' \<in> set (cps[i := cp'])" using that by (rule set_update_memI)
    with idle show ?thesis
      by (auto simp: findAvailableChargepoint_def find_None_iff)
  qed
  have first: "findAvailableChargepoint \<lparr>chargepoints = cps[i := cp']\<rparr> = Some cp'"
    if "i < length cps \<and> (\<forall>j < i. \<not> isAvailable (cps ! j))" for cps i
  proof -
    have "\<exists>k < length (cps[i := cp']). isAvailable (cps[i := cp'] ! k)
            \<and> cp' = cps[i := cp'] ! k \<and> (\<forall>j < k. \<not> isAvailable (cps[i := cp'] ! j))"
      using that idle by (intro exI [of _ i]) simp
    then show ?thesis
      by (simp add: findAvailableChargepoint_def find_Some_iff)
  qed
  from idle some first show ?thesis by blast
qed

text \<open>
  Witness for C6: a vehicle needing 1.8 kWh on a chargepoint of 11 kW receives 1.8 kWh in one
  tick and is released.
\<close>

theorem release_on_completion_witness:
  "currentEV \<lparr>id_cp = 0, powerKw = 11, currentEV = Some 0\<rparr> = Some 0
   \<and> processChargingTick [\<lparr>id_ev = 1, energyNeededKwh = 9 / 5, energyReceivedKwh = 0\<rparr>]
        \<lparr>id_cp = 0, powerKw = 11, currentEV = Some 0\<rparr>
      = (9 / 5, [\<lparr>id_ev = 1, energyNeededKwh = 9 / 5, energyReceivedKwh = 9 / 5\<rparr>],
         \<lparr>id_cp = 0, powerKw = 11, currentEV = None\<rparr>)
   \<and> isFullyCharged ([\<lparr>id_ev = 1, energyNeededKwh = 9 / 5, energyReceivedKwh = 9 / 5\<rparr>] ! 0)
   \<and> isAvailable \<lparr>id_cp = 0, powerKw = 11, currentEV = None\<rparr>
   \<and> findAvailableChargepoint
        \<lparr>chargepoints = [\<lparr>id_cp = 0, powerKw = 11, currentEV = Some 0\<rparr>][0 :=
           \<lparr>id_cp = 0, powerKw = 11, currentEV = None\<rparr>]\<rparr>
      = Some \<lparr>id_cp = 0, powerKw = 11, currentEV = None\<rparr>"
proof -
  have run: "processChargingTick [\<lparr>id_ev = 1, energyNeededKwh = 9 / 5, energyReceivedKwh = 0\<rparr>]
        \<lparr>id_cp = 0, powerKw = 11, currentEV = Some 0\<rparr>
      = (9 / 5, [\<lparr>id_ev = 1, energyNeededKwh = 9 / 5, energyReceivedKwh = 9 / 5\<rparr>],
         \<lparr>id_cp = 0, powerKw = 11, currentEV = None\<rparr>)"
    by (simp add: processChargingTick_def charge_def isFullyCharged_def releaseEV_def
        TICKS_PER_HOUR_def Let_def)
  have full: "isFullyCharged ([\<lparr>id_ev = 1, energyNeededKwh = 9 / 5, energyReceivedKwh = 9 / 5\<rparr>] ! 0)"
    by (simp add: isFullyCharged_def)
  have occ: "currentEV \<lparr>id_cp = 0, powerKw = 11, currentEV = Some 0\<rparr> = Some 0" by simp
  show ?thesis
    using release_on_completion [OF occ run full] run full
    by (simp add: isAvailable_def findAvailableChargepoint_def)
qed

section \<open>The engine\<close>

lemma sum_list_map_update:
  fixes f :: "'a \<Rightarrow> real"
  shows "a < length h \<Longrightarrow> sum_list (map f (h[a := x])) = sum_list (map f h) - f (h ! a) + f x"
  by (induction h arbitrary: a) (auto split: nat.splits)

lemma store_inv_nth: "store_inv h \<Longrightarrow> a < length h \<Longrightarrow> vehicle_inv (h ! a)"
  by (simp add: store_inv_def list_all_length)

lemma store_inv_update: "store_inv h \<Longrightarrow> vehicle_inv x \<Longrightarrow> store_inv (h[a := x])"
  by (auto simp: store_inv_def list_all_iff dest: subsetD [OF set_update_subset_insert])

lemma store_inv_append: "store_inv h \<Longrightarrow> vehicle_inv x \<Longrightarrow> store_inv (h @ [x])"
  by (simp add: store_inv_def)

lemma chargepoint_inv_mono:
  "chargepoint_inv h cp \<Longrightarrow> length h \<le> length h' \<Longrightarrow> chargepoint_inv h' cp"
  by (auto simp: chargepoint_inv_def split: option.splits)

lemma chargepoints_inv_mono:
  "list_all (chargepoint_inv h) cps \<Longrightarrow> length h \<le> length h' \<Longrightarrow>
   list_all (chargepoint_inv h') cps"
  by (auto simp: list_all_iff intro: chargepoint_inv_mono)

lemma charge_eq:
  "charge amount ev =
     (min amount (energyNeededKwh ev - energyReceivedKwh ev),
      ev\<lparr>energyReceivedKwh :=
           energyReceivedKwh ev + min amount (energyNeededKwh ev - energyReceivedKwh ev)\<rparr>)"
  by (simp add: charge_def Let_def)

lemma processChargingTick_props:
  assumes inv: "store_inv h" and cp: "chargepoint_inv h cp"
    and run: "processChargingTick h cp = (e, h', cp')"
  shows "store_inv h' \<and> chargepoint_inv h' cp' \<and> length h' = length h \<and> 0 \<le> e
     \<and> energy_received_by_all h' = energy_received_by_all h + e"
proof (cases "currentEV cp")
  case None
  with run have "e = 0" "h' = h" "cp' = cp" by (simp_all add: processChargingTick_def)
  with inv cp show ?thesis by simp
next
  case (Some a)
  with cp have a: "a < length h" and pw: "powerKw cp = POWER_PER_CHARGEPOINT_KW"
    by (simp_all add: chargepoint_inv_def)
  define amount where "amount = powerKw cp * (1 / real TICKS_PER_HOUR)"
  define ev where "ev = h ! a"
  define ev' where "ev' = ev\<lparr>energyReceivedKwh := energyReceivedKwh ev + e\<rparr>"
  have amount: "0 \<le> amount"
    by (simp add: amount_def pw POWER_PER_CHARGEPOINT_KW_def TICKS_PER_HOUR_def)
  have evinv: "vehicle_inv ev" using inv a by (simp add: ev_def store_inv_nth)
  have e: "e = min amount (energyNeededKwh ev - energyReceivedKwh ev)"
    using run Some by (simp add: processChargingTick_def charge_eq amount_def ev_def Let_def)
  have h': "h' = h[a := ev']"
    using run Some
    by (simp add: processChargingTick_def charge_eq amount_def ev_def ev'_def e Let_def)
  have cp': "cp' = releaseEV cp \<or> cp' = cp"
    using run Some by (auto simp: processChargingTick_def charge_eq Let_def split: if_splits)
  have e0: "0 \<le> e" using amount evinv by (simp add: e vehicle_inv_def)
  have ev'inv: "vehicle_inv ev'"
    using evinv e0 by (simp add: ev'_def vehicle_inv_def e)
  have 1: "store_inv h'" using inv ev'inv by (simp add: h' store_inv_update)
  have 2: "chargepoint_inv h' cp'"
    using cp' cp by (auto simp: h' chargepoint_inv_def releaseEV_def split: option.splits)
  have 3: "energy_received_by_all h' = energy_received_by_all h + e"
    using a by (simp add: energy_received_by_all_def h' sum_list_map_update ev'_def ev_def)
  from 1 2 3 e0 show ?thesis by (simp add: h')
qed

lemma getWeightedRandomChoice_returns:
  "distribution \<noteq> [] \<Longrightarrow> \<exists>v g'. getWeightedRandomChoice distribution g = Inr (v, g')"
  by (simp add: getWeightedRandomChoice_def case_prod_beta split: option.splits)

lemma tick_progress_refl:
  "store_inv (store ts) \<Longrightarrow> evId ts = Suc (length (store ts)) \<Longrightarrow> tick_progress ts ts"
  by (simp add: tick_progress_def)

lemma tick_progress_trans:
  "tick_progress ts ts1 \<Longrightarrow> tick_progress ts1 ts2 \<Longrightarrow> tick_progress ts ts2"
  by (simp add: tick_progress_def)

lemma tick_progress_rng:
  "store_inv (store ts) \<Longrightarrow> evId ts = Suc (length (store ts)) \<Longrightarrow> tick_progress ts (ts\<lparr>rng := g\<rparr>)"
  by (simp add: tick_progress_def)

lemma arrival_props:
  assumes inv: "store_inv (store ts)" and cp: "chargepoint_inv (store ts) cp"
    and idle: "isAvailable cp" and ids: "evId ts = Suc (length (store ts))"
  shows "\<exists>cp' ts'. arrival currentHour cp ts = Inr (cp', ts')
     \<and> chargepoint_inv (store ts') cp' \<and> tick_progress ts ts'
     \<and> currentPowerDemandThisTick ts' = currentPowerDemandThisTick ts"
proof -
  define g1 where "g1 = snd (next_rand (rng ts))"
  obtain demandKm g2 where
    choice: "getWeightedRandomChoice CHARGING_DEMAND_KM_DISTRIBUTION_T2 g1 = Inr (demandKm, g2)"
    using getWeightedRandomChoice_returns [of CHARGING_DEMAND_KM_DISTRIBUTION_T2 g1]
    by (auto simp: CHARGING_DEMAND_KM_DISTRIBUTION_T2_def)
  define needed where "needed = (demandKm / 100) * KWH_PER_100KM"
  define h1 where "h1 = store ts @ [ElectricVehicle_new (evId ts) needed]"
  define cp1 where "cp1 = cp\<lparr>currentEV := Some (length (store ts))\<rparr>"
  define ts1 where "ts1 = ts\<lparr>rng := g2, evId := evId ts + 1, store := h1\<rparr>"
  obtain e h2 cp2 where tick: "processChargingTick h1 cp1 = (e, h2, cp2)"
    by (rule prod_cases3)
  consider (none) "\<not> fst (next_rand (rng ts))
        < ARRIVAL_PROBABILITY_PER_HOUR_T1 ! currentHour / real TICKS_PER_HOUR"
    | (zero) "fst (next_rand (rng ts))
        < ARRIVAL_PROBABILITY_PER_HOUR_T1 ! currentHour / real TICKS_PER_HOUR" "\<not> needed > 0"
    | (ev) "fst (next_rand (rng ts))
        < ARRIVAL_PROBABILITY_PER_HOUR_T1 ! currentHour / real TICKS_PER_HOUR" "needed > 0"
    by blast
  then show ?thesis
  proof cases
    case none
    then have "arrival currentHour cp ts = Inr (cp, ts\<lparr>rng := g1\<rparr>)"
      by (simp add: arrival_def case_prod_beta g1_def Let_def)
    with inv cp ids show ?thesis by (simp add: tick_progress_rng)
  next
    case zero
    then have "arrival currentHour cp ts = Inr (cp, ts\<lparr>rng := g2\<rparr>)"
      using choice by (simp add: arrival_def case_prod_beta g1_def needed_def Let_def)
    with inv cp ids show ?thesis by (simp add: tick_progress_rng)
  next
    case ev
    have assign: "assignEV h1 (length (store ts)) cp = (True, cp1)"
      using idle ev(2) by (simp add: assignEV_def h1_def cp1_def ElectricVehicle_new_def)
    have res: "arrival currentHour cp ts =
        Inr (cp2, ts1\<lparr>store := h2,
                totalEnergyDeliveredThisTick := totalEnergyDeliveredThisTick ts1 + e\<rparr>)"
      using ev choice assign tick
      unfolding g1_def needed_def h1_def cp1_def ts1_def
      by (simp add: arrival_def case_prod_beta Let_def)
    have inv1: "store_inv h1"
      using inv ev(2)
      by (simp add: h1_def store_inv_append vehicle_inv_def ElectricVehicle_new_def)
    have cpinv1: "chargepoint_inv h1 cp1"
      using cp by (simp add: chargepoint_inv_def cp1_def h1_def)
    have en1: "energy_received_by_all h1 = energy_received_by_all (store ts)"
      by (simp add: energy_received_by_all_def h1_def ElectricVehicle_new_def)
    from processChargingTick_props [OF inv1 cpinv1 tick]
    have p: "store_inv h2" "chargepoint_inv h2 cp2" "length h2 = length h1" "0 \<le> e"
      "energy_received_by_all h2 = energy_received_by_all h1 + e"
      by simp_all
    have "tick_progress ts (ts1\<lparr>store := h2,
                totalEnergyDeliveredThisTick := totalEnergyDeliveredThisTick ts1 + e\<rparr>)"
      using p en1 ids by (simp add: tick_progress_def ts1_def h1_def)
    with res p show ?thesis by (simp add: ts1_def)
  qed
qed

lemma visit_chargepoint_props:
  assumes inv: "store_inv (store ts)" and cp: "chargepoint_inv (store ts) cp"
    and ids: "evId ts = Suc (length (store ts))"
  shows "\<exists>cp' ts'. visit_chargepoint currentHour cp ts = Inr (cp', ts')
     \<and> chargepoint_inv (store ts') cp' \<and> tick_progress ts ts'
     \<and> currentPowerDemandThisTick ts'
         \<le> currentPowerDemandThisTick ts + POWER_PER_CHARGEPOINT_KW"
proof -
  have "\<exists>cp1 ts1.
      (if isAvailable cp then arrival currentHour cp ts
       else let (energyDelivered, h', cp') = processChargingTick (store ts) cp
            in Inr (cp', ts\<lparr>store := h',
                     totalEnergyDeliveredThisTick :=
                       totalEnergyDeliveredThisTick ts + energyDelivered\<rparr>)) = Inr (cp1, ts1)
      \<and> chargepoint_inv (store ts1) cp1 \<and> tick_progress ts ts1
      \<and> currentPowerDemandThisTick ts1 = currentPowerDemandThisTick ts"
  proof (cases "isAvailable cp")
    case True
    then show ?thesis using arrival_props [OF inv cp True ids] by simp
  next
    case False
    obtain e h' cp' where tick: "processChargingTick (store ts) cp = (e, h', cp')"
      by (rule prod_cases3)
    from processChargingTick_props [OF inv cp tick] ids
    have "chargepoint_inv h' cp'"
      "tick_progress ts (ts\<lparr>store := h',
         totalEnergyDeliveredThisTick := totalEnergyDeliveredThisTick ts + e\<rparr>)"
      by (simp_all add: tick_progress_def)
    with False tick show ?thesis by simp
  qed
  then obtain cp1 ts1 where
    body: "(if isAvailable cp then arrival currentHour cp ts
       else let (energyDelivered, h', cp') = processChargingTick (store ts) cp
            in Inr (cp', ts\<lparr>store := h',
                     totalEnergyDeliveredThisTick :=
                       totalEnergyDeliveredThisTick ts + energyDelivered\<rparr>)) = Inr (cp1, ts1)"
    and p: "chargepoint_inv (store ts1) cp1" "tick_progress ts ts1"
      "currentPowerDemandThisTick ts1 = currentPowerDemandThisTick ts"
    by blast
  have res: "visit_chargepoint currentHour cp ts =
      Inr (cp1, if \<not> isAvailable cp1
                then ts1\<lparr>currentPowerDemandThisTick :=
                           currentPowerDemandThisTick ts1 + powerKw cp1\<rparr>
                else ts1)"
    unfolding visit_chargepoint_def body by simp
  have pw: "powerKw cp1 = POWER_PER_CHARGEPOINT_KW" using p(1) by (simp add: chargepoint_inv_def)
  show ?thesis
    using p pw unfolding res
    by (auto simp: tick_progress_def chargepoint_inv_def POWER_PER_CHARGEPOINT_KW_def
        split: option.splits)
qed


lemma for_chargepoints_props:
  assumes "store_inv (store ts)" "list_all (chargepoint_inv (store ts)) cps"
    "evId ts = Suc (length (store ts))"
  shows "\<exists>cps' ts'. for_chargepoints currentHour cps ts = Inr (cps', ts')
     \<and> length cps' = length cps
     \<and> list_all (chargepoint_inv (store ts')) cps' \<and> tick_progress ts ts'
     \<and> currentPowerDemandThisTick ts'
         \<le> currentPowerDemandThisTick ts + real (length cps) * POWER_PER_CHARGEPOINT_KW"
  using assms
proof (induction cps arbitrary: ts)
  case Nil
  then show ?case by (simp add: tick_progress_refl)
next
  case (Cons cp cps)
  from Cons.prems have cp: "chargepoint_inv (store ts) cp"
    and rest: "list_all (chargepoint_inv (store ts)) cps" by simp_all
  from visit_chargepoint_props [OF Cons.prems(1) cp Cons.prems(3), of currentHour]
  obtain cp' ts1 where
    visit: "visit_chargepoint currentHour cp ts = Inr (cp', ts1)"
    and cp': "chargepoint_inv (store ts1) cp'" and pr1: "tick_progress ts ts1"
    and pw1: "currentPowerDemandThisTick ts1
         \<le> currentPowerDemandThisTick ts + POWER_PER_CHARGEPOINT_KW"
    by blast
  from pr1 have inv1: "store_inv (store ts1)" and len1: "length (store ts) \<le> length (store ts1)"
    and ids1: "evId ts1 = Suc (length (store ts1))"
    by (simp_all add: tick_progress_def)
  have rest1: "list_all (chargepoint_inv (store ts1)) cps"
    using rest len1 by (rule chargepoints_inv_mono)
  from Cons.IH [OF inv1 rest1 ids1]
  obtain cps' ts2 where
    loop: "for_chargepoints currentHour cps ts1 = Inr (cps', ts2)"
    and len: "length cps' = length cps"
    and cps': "list_all (chargepoint_inv (store ts2)) cps'" and pr2: "tick_progress ts1 ts2"
    and pw2: "currentPowerDemandThisTick ts2
         \<le> currentPowerDemandThisTick ts1 + real (length cps) * POWER_PER_CHARGEPOINT_KW"
    by blast
  from pr2 have len2: "length (store ts1) \<le> length (store ts2)"
    by (simp add: tick_progress_def)
  have res: "for_chargepoints currentHour (cp # cps) ts = Inr (cp' # cps', ts2)"
    by (simp add: visit loop)
  have a: "list_all (chargepoint_inv (store ts2)) (cp' # cps')"
    using cps' chargepoint_inv_mono [OF cp' len2] by simp
  have b: "tick_progress ts ts2" using pr1 pr2 by (rule tick_progress_trans)
  have c: "currentPowerDemandThisTick ts2
         \<le> currentPowerDemandThisTick ts + real (length (cp # cps)) * POWER_PER_CHARGEPOINT_KW"
    using pw1 pw2 by (simp add: algebra_simps)
  from res len a b c show ?case by simp
qed

text \<open>The hour of a tick is an index of the 24 entries of the arrival table.\<close>

lemma current_hour_in_table:
  "(tick mod (HOURS_PER_DAY * TICKS_PER_HOUR)) div TICKS_PER_HOUR
     < length ARRIVAL_PROBABILITY_PER_HOUR_T1"
proof -
  have "tick mod 96 < 96" by simp
  then have "tick mod 96 div 4 < 24" by (simp add: div_less_iff_less_mult)
  then show ?thesis
    by (simp add: HOURS_PER_DAY_def TICKS_PER_HOUR_def ARRIVAL_PROBABILITY_PER_HOUR_T1_def)
qed

lemma tick_body_props:
  assumes "sim_inv sim"
  shows "\<exists>sim'. tick_body tick sim = Inr sim' \<and> sim_inv sim'
     \<and> numChargepoints sim' = numChargepoints sim
     \<and> maxTicksToSimulate sim' = maxTicksToSimulate sim
     \<and> totalEnergyConsumedKwh (stats sim) \<le> totalEnergyConsumedKwh (stats sim')
     \<and> actualMaxPowerDemandKw (stats sim) \<le> actualMaxPowerDemandKw (stats sim')"
proof -
  define currentHour where
    "currentHour = (tick mod (HOURS_PER_DAY * TICKS_PER_HOUR)) div TICKS_PER_HOUR"
  define ts0 where "ts0 = \<lparr>rng = randomGenerator sim, evId = nextEvId sim, store = vehicles sim,
                 totalEnergyDeliveredThisTick = 0, currentPowerDemandThisTick = 0\<rparr>"
  from assms have inv0: "store_inv (store ts0)"
    and cps0: "list_all (chargepoint_inv (store ts0)) (chargepoints (station sim))"
    and ids0: "evId ts0 = Suc (length (store ts0))"
    by (simp_all add: sim_inv_def ts0_def)
  from for_chargepoints_props [OF inv0 cps0 ids0, of currentHour]
  obtain cps' ts where
    loop: "for_chargepoints currentHour (chargepoints (station sim)) ts0 = Inr (cps', ts)"
    and len: "length cps' = length (chargepoints (station sim))"
    and cps': "list_all (chargepoint_inv (store ts)) cps'" and pr: "tick_progress ts0 ts"
    and pw: "currentPowerDemandThisTick ts
         \<le> currentPowerDemandThisTick ts0
            + real (length (chargepoints (station sim))) * POWER_PER_CHARGEPOINT_KW"
    by blast
  define sim' where "sim' = sim\<lparr>station := \<lparr>chargepoints = cps'\<rparr>,
                      randomGenerator := rng ts,
                      nextEvId := evId ts,
                      vehicles := store ts,
                      stats := recordTickData (totalEnergyDeliveredThisTick ts)
                                 (currentPowerDemandThisTick ts) (stats sim)\<rparr>"
  have res: "tick_body tick sim = Inr sim'"
    using loop unfolding currentHour_def ts0_def sim'_def
    by (simp add: tick_body_def Let_def)
  from pr have e0: "0 \<le> totalEnergyDeliveredThisTick ts"
    and en: "energy_received_by_all (store ts) - totalEnergyDeliveredThisTick ts
          = energy_received_by_all (vehicles sim)"
    and inv: "store_inv (store ts)" and ids: "evId ts = Suc (length (store ts))"
    by (simp_all add: tick_progress_def ts0_def)
  from pw assms have pw': "currentPowerDemandThisTick ts
      \<le> real (numChargepoints sim) * POWER_PER_CHARGEPOINT_KW"
    by (simp add: ts0_def sim_inv_def)
  have tot: "totalEnergyConsumedKwh (stats sim') =
      totalEnergyConsumedKwh (stats sim) + totalEnergyDeliveredThisTick ts"
    by (simp add: sim'_def recordTickData_def Let_def)
  have mx: "actualMaxPowerDemandKw (stats sim') =
      max (actualMaxPowerDemandKw (stats sim)) (currentPowerDemandThisTick ts)"
    by (simp add: sim'_def recordTickData_def Let_def max_def)
  have "sim_inv sim'"
    using assms inv cps' len ids en pw' unfolding sim_inv_def tot mx
    by (simp add: sim'_def)
  moreover have "numChargepoints sim' = numChargepoints sim"
    "maxTicksToSimulate sim' = maxTicksToSimulate sim"
    by (simp_all add: sim'_def)
  moreover have "totalEnergyConsumedKwh (stats sim) \<le> totalEnergyConsumedKwh (stats sim')"
    using e0 by (simp add: tot)
  moreover have "actualMaxPowerDemandKw (stats sim) \<le> actualMaxPowerDemandKw (stats sim')"
    by (simp add: mx)
  ultimately show ?thesis using res by blast
qed

declare run_loop.simps [simp del]

lemma run_loop_props:
  assumes "sim_inv sim"
  shows "\<exists>sim'. run_loop maxTicks tick sim = Inr sim' \<and> sim_inv sim'
     \<and> numChargepoints sim' = numChargepoints sim
     \<and> totalEnergyConsumedKwh (stats sim) \<le> totalEnergyConsumedKwh (stats sim')
     \<and> actualMaxPowerDemandKw (stats sim) \<le> actualMaxPowerDemandKw (stats sim')"
  using assms
proof (induction maxTicks tick sim rule: run_loop.induct)
  case (1 maxTicks tick sim)
  show ?case
  proof (cases "tick < maxTicks")
    case False
    then show ?thesis using "1.prems" by (simp add: run_loop.simps [of maxTicks tick sim])
  next
    case True
    from tick_body_props [OF "1.prems", of tick]
    obtain sim1 where body: "tick_body tick sim = Inr sim1" and inv1: "sim_inv sim1"
      and n1: "numChargepoints sim1 = numChargepoints sim"
      and t1: "totalEnergyConsumedKwh (stats sim) \<le> totalEnergyConsumedKwh (stats sim1)"
      and m1: "actualMaxPowerDemandKw (stats sim) \<le> actualMaxPowerDemandKw (stats sim1)"
      by blast
    from "1.IH" [OF True body inv1]
    obtain sim' where rest: "run_loop maxTicks (Suc tick) sim1 = Inr sim'" and inv': "sim_inv sim'"
      and n': "numChargepoints sim' = numChargepoints sim1"
      and t': "totalEnergyConsumedKwh (stats sim1) \<le> totalEnergyConsumedKwh (stats sim')"
      and m': "actualMaxPowerDemandKw (stats sim1) \<le> actualMaxPowerDemandKw (stats sim')"
      by blast
    have "run_loop maxTicks tick sim = Inr sim'"
      using True body rest by (simp add: run_loop.simps [of maxTicks tick sim])
    with inv' n1 n' t1 t' m1 m' show ?thesis by simp
  qed
qed

lemma run_loop_split:
  assumes "run_loop k j sim = Inr s" "j \<le> k" "k \<le> m"
  shows "run_loop m j sim = run_loop m k s"
  using assms
proof (induction k j sim rule: run_loop.induct)
  case (1 k j sim)
  show ?case
  proof (cases "j < k")
    case False
    with "1.prems" have "j = k" "s = sim" by (simp_all add: run_loop.simps [of k j sim])
    then show ?thesis by simp
  next
    case True
    with "1.prems"(1) obtain sim1 where body: "tick_body j sim = Inr sim1"
      and rest: "run_loop k (Suc j) sim1 = Inr s"
      by (auto simp: run_loop.simps [of k j sim] split: sum.splits)
    from True have "Suc j \<le> k" by simp
    from "1.IH" [OF True body rest this "1.prems"(3)]
    have "run_loop m (Suc j) sim1 = run_loop m k s" .
    moreover have "j < m" using True "1.prems"(3) by simp
    ultimately show ?thesis using body by (simp add: run_loop.simps [of m j sim])
  qed
qed

lemma sim_inv_new: "sim_inv (EVChargingSimulation_new n options)"
  by (simp add: sim_inv_def EVChargingSimulation_new_def ChargingStation_new_def
      SimulationStatistics_new_def store_inv_def energy_received_by_all_def list_all_iff
      chargepoint_inv_def Chargepoint_new_def POWER_PER_CHARGEPOINT_KW_def)


text \<open>
  Claim C10: every run with \<open>numChargepoints\<close> chargepoints completes with
  \<open>actualMaxPowerDemandKw\<close> at most \<open>numChargepoints * POWER_PER_CHARGEPOINT_KW\<close>.
\<close>

theorem max_power_bound:
  "\<exists>final. run (EVChargingSimulation_new n options) = Inr final
     \<and> actualMaxPowerDemandKw (stats final) \<le> real n * POWER_PER_CHARGEPOINT_KW"
proof -
  obtain final where r: "run (EVChargingSimulation_new n options) = Inr final"
    and inv: "sim_inv final"
    and num: "numChargepoints final = numChargepoints (EVChargingSimulation_new n options)"
    using run_loop_props [OF sim_inv_new, of _ 0 n options] by (auto simp: run_def)
  have "numChargepoints final = n" using num by (simp add: EVChargingSimulation_new_def)
  with inv r show ?thesis by (auto simp: sim_inv_def)
qed

text \<open>
  Claim C9: the statistics are monotone over the ticks of a run. For \<open>j \<le> k\<close> within the
  tick budget, the run passes through the state \<open>s\<close> after \<open>j\<close> ticks and the state \<open>s'\<close>
  after \<open>k\<close> ticks, and neither \<open>totalEnergyConsumedKwh\<close> nor \<open>actualMaxPowerDemandKw\<close> is
  smaller in \<open>s'\<close> than in \<open>s\<close>; \<open>k = j + 1\<close> is one tick to the next.
\<close>

theorem statistics_monotone:
  assumes "j \<le> k" "k \<le> maxTicksToSimulate (EVChargingSimulation_new n options)"
  shows "\<exists>s s'. after_ticks j (EVChargingSimulation_new n options) = Inr s
     \<and> after_ticks k (EVChargingSimulation_new n options) = Inr s'
     \<and> run (EVChargingSimulation_new n options)
         = run_loop (maxTicksToSimulate (EVChargingSimulation_new n options)) j s
     \<and> run (EVChargingSimulation_new n options)
         = run_loop (maxTicksToSimulate (EVChargingSimulation_new n options)) k s'
     \<and> totalEnergyConsumedKwh (stats s) \<le> totalEnergyConsumedKwh (stats s')
     \<and> actualMaxPowerDemandKw (stats s) \<le> actualMaxPowerDemandKw (stats s')"
proof -
  define sim0 where "sim0 = EVChargingSimulation_new n options"
  define m where "m = maxTicksToSimulate sim0"
  have km: "k \<le> m" and jm: "j \<le> m" using assms by (simp_all add: m_def sim0_def)
  obtain s where s: "run_loop j 0 sim0 = Inr s" and invs: "sim_inv s"
    using run_loop_props [OF sim_inv_new, of j 0 n options] by (auto simp: sim0_def)
  obtain s' where s': "run_loop k j s = Inr s'"
    and t: "totalEnergyConsumedKwh (stats s) \<le> totalEnergyConsumedKwh (stats s')"
    and mx: "actualMaxPowerDemandKw (stats s) \<le> actualMaxPowerDemandKw (stats s')"
    using run_loop_props [OF invs, of k j] by auto
  have "run_loop k 0 sim0 = run_loop k j s"
    using s _ assms(1) by (rule run_loop_split) simp
  then have k: "after_ticks k sim0 = Inr s'" by (simp add: after_ticks_def s')
  have rj: "run sim0 = run_loop m j s"
    unfolding run_def m_def [symmetric] using s _ jm by (rule run_loop_split) simp
  have "run_loop m j s = run_loop m k s'"
    using s' assms(1) km by (rule run_loop_split)
  with rj have rk: "run sim0 = run_loop m k s'" by simp
  from s k rj rk t mx show ?thesis
    unfolding sim0_def [symmetric] m_def [symmetric] by (simp add: after_ticks_def)
qed

text \<open>Witness for C9: the first tick of a run of two ticks with one chargepoint.\<close>

theorem statistics_monotone_witness:
  "(0::nat) \<le> 1
   \<and> 1 \<le> maxTicksToSimulate (EVChargingSimulation_new 1 \<lparr>seed_option = Some 1, verbose_option = None, maxTicks_option = Some 2\<rparr>)
   \<and> (\<exists>s s'. after_ticks 0 (EVChargingSimulation_new 1 \<lparr>seed_option = Some 1, verbose_option = None, maxTicks_option = Some 2\<rparr>) = Inr s
     \<and> after_ticks 1 (EVChargingSimulation_new 1 \<lparr>seed_option = Some 1, verbose_option = None, maxTicks_option = Some 2\<rparr>) = Inr s'
     \<and> totalEnergyConsumedKwh (stats s) \<le> totalEnergyConsumedKwh (stats s')
     \<and> actualMaxPowerDemandKw (stats s) \<le> actualMaxPowerDemandKw (stats s'))"
proof -
  have h: "1 \<le> maxTicksToSimulate (EVChargingSimulation_new 1 \<lparr>seed_option = Some 1, verbose_option = None, maxTicks_option = Some 2\<rparr>)"
    by (simp add: EVChargingSimulation_new_def)
  have z: "(0::nat) \<le> 1" by simp
  from statistics_monotone [OF z h] h show ?thesis by auto
qed

end
